theory Spec2Isabelle
  imports Complex_Main
begin

section \<open>The generic channel of liquid (channel.c)\<close>

text \<open>
  The source is the macro-generic channel object: additive white Gauss noise, a carrier
  offset and a multi-path filter, applied sample by sample by \<open>CHANNEL(_execute)\<close>.
  The model is the instantiation over complex samples: \<open>TI\<close>, \<open>TO\<close> and \<open>TC\<close> are
  \<open>complex\<close>, \<open>T\<close> and \<open>float\<close> are \<open>real\<close>. Floating-point arithmetic is not modelled:
  every arithmetic operation of the source is the exact operation on the reals, and
  \<open>powf\<close> is the real power \<open>powr\<close>, so there is no rounding, no overflow to infinity,
  no underflow to zero and no NaN. Nothing below is a statement about the values
  that \<open>powf\<close> stores. Unsigned lengths and indices are \<open>nat\<close>; the only arithmetic on
  them is the loop increment below the loop bound, which cannot wrap.
\<close>

subsection \<open>The process around the engine\<close>

text \<open>
  What a call can touch besides the engine: the text written to \<open>stdout\<close> and
  \<open>stderr\<close>, the Gaussian generator behind \<open>randnf()\<close>, given as the sequence of
  values it is going to return together with the number of draws made so far, and the
  content of heap memory that has been allocated but never written (\<open>uninit\<close>).

  C does not fix the order in which the two operands of \<open>+\<close> are evaluated. Where one
  expression calls \<open>randnf()\<close> in both operands, either call may come first, and the
  choice is the compiler's for each evaluation. \<open>left_first\<close> is that choice: at the
  evaluation that starts after \<open>n\<close> draws, the left operand is called first if and only
  if \<open>left_first n\<close> holds. Every theorem below holds for every such choice.
\<close>

record env =
  stdout :: "string list"
  stderr :: "string list"
  randn :: "nat \<Rightarrow> real"
  randn_pos :: nat
  left_first :: "nat \<Rightarrow> bool"
  uninit :: complex

definition randnf :: "env \<Rightarrow> real \<times> env" where
  "randnf e = (randn e (randn_pos e), e\<lparr>randn_pos := Suc (randn_pos e)\<rparr>)"

text \<open>
  The values of the left and of the right call of \<open>randnf()\<close> in an expression that
  calls it once in each operand.
\<close>

definition randnf_operands :: "env \<Rightarrow> (real \<times> real) \<times> env" where
  "randnf_operands e =
     (case randnf e of (a, e1) \<Rightarrow>
        (case randnf e1 of (b, e2) \<Rightarrow>
           (if left_first e (randn_pos e) then (a, b) else (b, a), e2)))"

definition printf :: "env \<Rightarrow> string \<Rightarrow> env" where
  "printf e msg = e\<lparr>stdout := stdout e @ [msg]\<rparr>"

definition fprintf_stderr :: "env \<Rightarrow> string \<Rightarrow> env" where
  "fprintf_stderr e msg = e\<lparr>stderr := stderr e @ [msg]\<rparr>"

text \<open>
  A call returns, or ends the process with an exit status (\<open>exit(1)\<close>), or leaves the
  defined behaviour of C (a read or write outside a buffer, a null filter handle
  passed to the filter). \<open>Exited\<close> carries the state at the moment of the exit.
\<close>

datatype 'a outcome = Returned 'a | Exited int 'a | Undefined

subsection \<open>Collaborators: oscillator and filter\<close>

datatype liquid_ncotype = LIQUID_NCO | LIQUID_VCO

record nco_s =
  nco_type :: liquid_ncotype
  theta :: real
  d_theta :: real

text \<open>
  Modelled from the spec: the oscillator \<open>NCO()\<close> is not part of the source file. The spec
  gives a freshly created oscillator frequency and phase zero, \<open>setFrequency\<close> and
  \<open>setPhase\<close> program the two values, and \<open>mixUp\<close> rotates the sample by the
  oscillator's current unit-magnitude rotation and then advances the phase by the
  frequency.
\<close>

definition nco_create :: "liquid_ncotype \<Rightarrow> nco_s" where
  \<comment> \<open>Modelled from the spec: \<open>NCO(_create)\<close>, initial frequency and phase both zero.\<close>
  "nco_create t = \<lparr>nco_type = t, theta = 0, d_theta = 0\<rparr>"

definition nco_set_frequency :: "nco_s \<Rightarrow> real \<Rightarrow> nco_s" where
  \<comment> \<open>Modelled from the spec: \<open>NCO(_set_frequency)\<close>.\<close>
  "nco_set_frequency n f = n\<lparr>d_theta := f\<rparr>"

definition nco_set_phase :: "nco_s \<Rightarrow> real \<Rightarrow> nco_s" where
  \<comment> \<open>Modelled from the spec: \<open>NCO(_set_phase)\<close>.\<close>
  "nco_set_phase n p = n\<lparr>theta := p\<rparr>"

definition nco_mix_up :: "nco_s \<Rightarrow> complex \<Rightarrow> complex \<times> nco_s" where
  \<comment> \<open>Modelled from the spec: \<open>NCO(_mix_up)\<close>, rotate, then advance the phase.\<close>
  "nco_mix_up n v = (v * cis (theta n), n\<lparr>theta := theta n + d_theta n\<rparr>)"

record firfilt_s =
  fir_h :: "complex list"
  fir_w :: "complex list"

text \<open>
  Modelled from the spec: the filter \<open>FIRFILT()\<close> is not part of the source file. It is
  built from a coefficient sequence, \<open>push\<close> enters a sample into its delay line
  (newest first, the oldest dropped) and \<open>execute\<close> pops the filtered output, the sum
  of the coefficients times the delayed samples.
\<close>

definition firfilt_create :: "complex list \<Rightarrow> nat \<Rightarrow> firfilt_s" where
  \<comment> \<open>Modelled from the spec: \<open>FIRFILT(_create)\<close>, the delay line starts at zero.\<close>
  "firfilt_create cs n = \<lparr>fir_h = take n cs, fir_w = replicate n 0\<rparr>"

definition firfilt_push :: "firfilt_s \<Rightarrow> complex \<Rightarrow> firfilt_s" where
  \<comment> \<open>Modelled from the spec: \<open>FIRFILT(_push)\<close>.\<close>
  "firfilt_push f v = f\<lparr>fir_w := take (length (fir_w f)) (v # fir_w f)\<rparr>"

definition firfilt_execute :: "firfilt_s \<Rightarrow> complex" where
  \<comment> \<open>Modelled from the spec: \<open>FIRFILT(_execute)\<close>.\<close>
  "firfilt_execute f = sum_list (map2 (*) (fir_h f) (fir_w f))"

subsection \<open>The channel object\<close>

text \<open>
  \<open>struct CHANNEL(_s)\<close>, field by field. The flags are C \<open>int\<close>s, tested for being
  non-zero. \<open>channel_filter\<close> is a pointer that may be \<open>NULL\<close> (\<open>None\<close>). \<open>h\<close> is the
  heap block of coefficients; the length of the list is the number of elements the
  block holds.
\<close>

record channel =
  enabled_awgn :: int
  gamma :: real
  nstd :: real
  noise_floor_dB :: real
  SNRdB :: real
  enabled_carrier :: int
  dphi :: real
  phi :: real
  nco :: nco_s
  enabled_multipath :: int
  channel_filter :: "firfilt_s option"
  h :: "complex list"
  h_len :: nat

text \<open>
  \<open>CHANNEL(_create)\<close>. \<open>malloc\<close> returns a block with indeterminate content: \<open>raw\<close> is
  that content, and the fields the function does not assign keep it. The two
  parameters \<open>_h\<close> and \<open>_n\<close> are not used by the source. Allocation is assumed to
  succeed.
\<close>

definition create :: "channel \<Rightarrow> complex list option \<Rightarrow> nat \<Rightarrow> channel" where
  "create raw hs n =
     raw\<lparr>enabled_awgn := 0,
         enabled_carrier := 0,
         enabled_multipath := 0,
         nco := nco_create LIQUID_VCO,
         channel_filter := None,
         h_len := 1,
         h := [1]\<rparr>"

text \<open>
  \<open>CHANNEL(_print)\<close> reads the engine and writes to \<open>stdout\<close>. \<open>CHANNEL(_destroy)\<close>
  frees the engine and ends its lifetime; it has no model.
\<close>

definition print :: "channel \<Rightarrow> env \<Rightarrow> env" where
  "print q e =
     (let e1 = printf e (''channel'' @ [CHR 0x0A])
      in if enabled_awgn q \<noteq> 0 then printf e1 (''  AWGN:'' @ [CHR 0x0A]) else e1)"

text \<open>
  \<open>CHANNEL(_add_awgn)\<close>. \<open>powf\<close> and the division are the exact operations on the
  reals; the source computes them in single precision.
\<close>

definition add_awgn :: "channel \<Rightarrow> real \<Rightarrow> real \<Rightarrow> channel" where
  "add_awgn q nf snr =
     (let q1 = q\<lparr>enabled_awgn := 1\<rparr>;
          q2 = q1\<lparr>noise_floor_dB := nf\<rparr>;
          q3 = q2\<lparr>SNRdB := snr\<rparr>;
          q4 = q3\<lparr>nstd := 10 powr (nf / 20)\<rparr>
      in q4\<lparr>gamma := 10 powr ((SNRdB q4 + noise_floor_dB q4) / 20)\<rparr>)"

text \<open>\<open>CHANNEL(_add_carrier_offset)\<close>.\<close>

definition add_carrier_offset :: "channel \<Rightarrow> real \<Rightarrow> real \<Rightarrow> channel" where
  "add_carrier_offset q frequency phase =
     (let q1 = q\<lparr>enabled_carrier := 1\<rparr>;
          q2 = q1\<lparr>dphi := frequency\<rparr>;
          q3 = q2\<lparr>phi := phase\<rparr>;
          q4 = q3\<lparr>nco := nco_set_frequency (nco q3) (dphi q3)\<rparr>
      in q4\<lparr>nco := nco_set_phase (nco q4) (phi q4)\<rparr>)"

text \<open>
  \<open>CHANNEL(_add_multipath)\<close>. \<open>EXTENSION_FULL\<close> is a macro of the instantiating file,
  here the complex instantiation.
\<close>

definition EXTENSION_FULL :: string where
  "EXTENSION_FULL = ''cccf''"

definition warning_zero :: string where
  "warning_zero = ''warning: channel_'' @ EXTENSION_FULL
     @ ''_add_multipath(), filter length is zero (ignoring)'' @ [CHR 0x0A]"

definition warning_maximum :: string where
  "warning_maximum = ''warning: channel_'' @ EXTENSION_FULL
     @ ''_add_multipath(), filter length exceeds maximum'' @ [CHR 0x0A]"

text \<open>
  \<open>realloc\<close> keeps the old content up to the smaller of the two sizes; what lies
  beyond is indeterminate.
\<close>

definition realloc :: "complex list \<Rightarrow> nat \<Rightarrow> complex \<Rightarrow> complex list" where
  "realloc blk n junk = take n blk @ replicate (n - length blk) junk"

text \<open>
  The loop \<open>for (i=1; i<_q->h_len; i++)\<close> that draws the random coefficients. The
  source multiplies the values of its two calls of \<open>randnf()\<close>, and the product of the
  two draws is the same whichever call is made first.
\<close>

function add_multipath_loop :: "channel \<Rightarrow> env \<Rightarrow> nat \<Rightarrow> channel \<times> env" where
  "add_multipath_loop q e i =
     (if i < h_len q then
        (case randnf e of (g1, e1) \<Rightarrow>
         case randnf e1 of (g2, e2) \<Rightarrow>
           add_multipath_loop
             (q\<lparr>h := (h q)[i := 0.05 * (of_real g1 * \<i> * of_real g2)]\<rparr>) e2 (Suc i))
      else (q, e))"
  by pat_completeness auto
termination
  by (relation "measure (\<lambda>(q, e, i). h_len q - i)") auto

definition add_multipath ::
    "channel \<Rightarrow> env \<Rightarrow> complex list option \<Rightarrow> nat \<Rightarrow> (channel \<times> env) outcome" where
  "add_multipath q e hs n =
     (if n = 0 then Returned (q, fprintf_stderr e warning_zero)
      else if n > 1000 then Exited 1 (q, fprintf_stderr e warning_maximum)
      else
        let q1 = q\<lparr>enabled_multipath := 1\<rparr>;
            q2 = (if h_len q1 \<noteq> n then q1\<lparr>h := realloc (h q1) n (uninit e)\<rparr> else q1);
            q3 = q2\<lparr>h_len := n\<rparr>
        in if length (h q3) < h_len q3 then Undefined
           else
             (case hs of
                None \<Rightarrow>
                  (case add_multipath_loop (q3\<lparr>h := (h q3)[0 := 1]\<rparr>) e 1 of
                     (q4, e4) \<Rightarrow>
                       Returned
                         (q4\<lparr>channel_filter := Some (firfilt_create (h q4) (h_len q4))\<rparr>, e4))
              | Some cs \<Rightarrow>
                  if length cs < h_len q3 then Undefined
                  else
                    let q4 = q3\<lparr>h := take (h_len q3) cs @ drop (h_len q3) (h q3)\<rparr>
                    in Returned
                         (q4\<lparr>channel_filter := Some (firfilt_create (h q4) (h_len q4))\<rparr>, e)))"

text \<open>
  \<open>CHANNEL(_execute)\<close>. \<open>M_SQRT1_2\<close> is the constant of \<open>math.h\<close>. The body of the loop
  works on the output buffer in place, as the source does: \<open>y\<close> is the caller's
  buffer \<open>_y\<close>, \<open>x\<close> the input buffer \<open>_x\<close>. In the noise term
  \<open>randnf() + _Complex_I*randnf()\<close> the left call gives the real part and the right
  call the imaginary part; which of the two is made first is not fixed.
\<close>

definition M_SQRT1_2 :: real where
  "M_SQRT1_2 = 1 / sqrt 2"

definition apply_filter ::
    "channel \<Rightarrow> complex list \<Rightarrow> complex list \<Rightarrow> nat \<Rightarrow> (channel \<times> complex list) outcome" where
  "apply_filter q x y i =
     (if enabled_multipath q \<noteq> 0 then
        (case channel_filter q of
           None \<Rightarrow> Undefined
         | Some f \<Rightarrow>
             let f1 = firfilt_push f (x ! i)
             in Returned (q\<lparr>channel_filter := Some f1\<rparr>, y[i := firfilt_execute f1]))
      else Returned (q, y[i := x ! i]))"

definition apply_carrier :: "channel \<Rightarrow> complex list \<Rightarrow> nat \<Rightarrow> channel \<times> complex list" where
  "apply_carrier q y i =
     (if enabled_carrier q \<noteq> 0 then
        (case nco_mix_up (nco q) (y ! i) of (v, n1) \<Rightarrow> (q\<lparr>nco := n1\<rparr>, y[i := v]))
      else (q, y))"

definition apply_awgn :: "channel \<Rightarrow> env \<Rightarrow> complex list \<Rightarrow> nat \<Rightarrow> env \<times> complex list" where
  "apply_awgn q e y i =
     (if enabled_awgn q \<noteq> 0 then
        let y1 = y[i := y ! i * of_real (gamma q)]
        in (case randnf_operands e of ((gl, gr), e2) \<Rightarrow>
              (e2, y1[i := y1 ! i
                      + of_real (nstd q) * (of_real gl + \<i> * of_real gr) * of_real M_SQRT1_2]))
      else (e, y))"

definition execute_body ::
    "channel \<Rightarrow> env \<Rightarrow> complex list \<Rightarrow> complex list \<Rightarrow> nat
      \<Rightarrow> (channel \<times> env \<times> complex list) outcome" where
  "execute_body q e x y i =
     (if length x \<le> i \<or> length y \<le> i then Undefined
      else
        (case apply_filter q x y i of
           Returned (q1, y1) \<Rightarrow>
             (case apply_carrier q1 y1 i of (q2, y2) \<Rightarrow>
              case apply_awgn q2 e y2 i of (e3, y3) \<Rightarrow> Returned (q2, e3, y3))
         | _ \<Rightarrow> Undefined))"

function execute_loop ::
    "channel \<Rightarrow> env \<Rightarrow> complex list \<Rightarrow> nat \<Rightarrow> complex list \<Rightarrow> nat
      \<Rightarrow> (channel \<times> env \<times> complex list) outcome" where
  "execute_loop q e x nx y i =
     (if i < nx then
        (case execute_body q e x y i of
           Returned (q1, e1, y1) \<Rightarrow> execute_loop q1 e1 x nx y1 (Suc i)
         | _ \<Rightarrow> Undefined)
      else Returned (q, e, y))"
  by pat_completeness auto
termination
  by (relation "measure (\<lambda>(q, e, x, nx, y, i). nx - i)") auto

text \<open>The result is the engine, the process state, the buffer \<open>_y\<close> and \<open>*_ny\<close>.\<close>

definition execute ::
    "channel \<Rightarrow> env \<Rightarrow> complex list \<Rightarrow> nat \<Rightarrow> complex list
      \<Rightarrow> (channel \<times> env \<times> complex list \<times> nat) outcome" where
  "execute q e x nx y =
     (case execute_loop q e x nx y 0 of
        Returned (q1, e1, y1) \<Rightarrow> Returned (q1, e1, y1, nx)
      | _ \<Rightarrow> Undefined)"

subsection \<open>The pipeline in the words of the specification\<close>

text \<open>
  The specification describes \<open>execute\<close> sample by sample: the multipath stage pushes
  the sample into the filter and pops the filtered output, the carrier stage mixes
  the value up with the oscillator, the noise stage scales by the gain and adds
  \<open>noiseStdDev * (g1 + i*g2) * (1/sqrt 2)\<close> for two fresh draws \<open>g1\<close> and \<open>g2\<close>, the
  next two values of the generator in the one or the other order; a disabled stage
  hands its input on. These definitions follow those words, on values instead of
  buffers, and are compared with the loop of the source below. The specification
  always has a filter; where the struct has none, the multipath stage is given
  nothing to do, and the comparison treats that case apart.
\<close>

definition stage_multipath :: "channel \<Rightarrow> complex \<Rightarrow> channel \<times> complex" where
  "stage_multipath q v =
     (if enabled_multipath q = 0 then (q, v)
      else (case channel_filter q of
              None \<Rightarrow> (q, v)
            | Some f \<Rightarrow>
                (q\<lparr>channel_filter := Some (firfilt_push f v)\<rparr>,
                 firfilt_execute (firfilt_push f v))))"

definition stage_carrier :: "channel \<Rightarrow> complex \<Rightarrow> channel \<times> complex" where
  "stage_carrier q v =
     (if enabled_carrier q = 0 then (q, v)
      else (q\<lparr>nco := snd (nco_mix_up (nco q) v)\<rparr>, fst (nco_mix_up (nco q) v)))"

definition stage_noise :: "channel \<Rightarrow> env \<Rightarrow> complex \<Rightarrow> env \<times> complex" where
  "stage_noise q e v =
     (if enabled_awgn q = 0 then (e, v)
      else
        (let g1 = fst (fst (randnf_operands e));
             g2 = snd (fst (randnf_operands e))
         in (snd (randnf_operands e),
             v * of_real (gamma q)
               + of_real (nstd q) * (of_real g1 + \<i> * of_real g2) * of_real (1 / sqrt 2))))"

definition process_sample :: "channel \<Rightarrow> env \<Rightarrow> complex \<Rightarrow> channel \<times> env \<times> complex" where
  "process_sample q e v =
     (case stage_multipath q v of (q1, v1) \<Rightarrow>
        (case stage_carrier q1 v1 of (q2, v2) \<Rightarrow>
           (case stage_noise q2 e v2 of (e3, v3) \<Rightarrow> (q2, e3, v3))))"

fun process_samples :: "channel \<Rightarrow> env \<Rightarrow> complex list \<Rightarrow> channel \<times> env \<times> complex list" where
  "process_samples q e [] = (q, e, [])"
| "process_samples q e (v # vs) =
     (case process_sample q e v of (q1, e1, w) \<Rightarrow>
        (case process_samples q1 e1 vs of (q2, e2, ws) \<Rightarrow> (q2, e2, w # ws)))"

text \<open>
  An engine whose multipath flag is set while its filter handle is \<open>NULL\<close>. No
  operation of the interface produces one, but the struct admits it, and the source
  then passes \<open>NULL\<close> to the filter. \<open>run_samples\<close> is \<open>process_samples\<close> with that
  failure written out; it serves the proofs about the loop.
\<close>

definition filter_missing :: "channel \<Rightarrow> bool" where
  "filter_missing q = (enabled_multipath q \<noteq> 0 \<and> channel_filter q = None)"

fun run_samples ::
    "channel \<Rightarrow> env \<Rightarrow> complex list \<Rightarrow> (channel \<times> env \<times> complex list) option" where
  "run_samples q e [] = Some (q, e, [])"
| "run_samples q e (v # vs) =
     (if filter_missing q then None
      else (case process_sample q e v of (q1, e1, w) \<Rightarrow>
              (case run_samples q1 e1 vs of
                 None \<Rightarrow> None
               | Some (q2, e2, ws) \<Rightarrow> Some (q2, e2, w # ws))))"

subsection \<open>Sequences of calls\<close>

datatype operation =
    Print
  | Add_awgn real real
  | Add_carrier_offset real real
  | Add_multipath "complex list option" nat
  | Execute "complex list" nat "complex list"

fun perform :: "operation \<Rightarrow> channel \<Rightarrow> env \<Rightarrow> (channel \<times> env) outcome" where
  "perform Print q e = Returned (q, print q e)"
| "perform (Add_awgn nf snr) q e = Returned (add_awgn q nf snr, e)"
| "perform (Add_carrier_offset f p) q e = Returned (add_carrier_offset q f p, e)"
| "perform (Add_multipath hs n) q e = add_multipath q e hs n"
| "perform (Execute x nx y) q e =
     (case execute q e x nx y of
        Returned (q1, e1, y1, ny) \<Rightarrow> Returned (q1, e1)
      | _ \<Rightarrow> Undefined)"

text \<open>Calls one after the other; an exit or an undefined call ends the run.\<close>

fun perform_all :: "operation list \<Rightarrow> channel \<Rightarrow> env \<Rightarrow> (channel \<times> env) outcome" where
  "perform_all [] q e = Returned (q, e)"
| "perform_all (p # ps) q e =
     (case perform p q e of
        Returned (q1, e1) \<Rightarrow> perform_all ps q1 e1
      | Exited c s \<Rightarrow> Exited c s
      | Undefined \<Rightarrow> Undefined)"

text \<open>The fields of the struct, stage by stage.\<close>

definition noise_fields :: "channel \<Rightarrow> int \<times> real \<times> real \<times> real \<times> real" where
  "noise_fields q = (enabled_awgn q, gamma q, nstd q, noise_floor_dB q, SNRdB q)"

definition carrier_fields :: "channel \<Rightarrow> int \<times> real \<times> real \<times> nco_s" where
  "carrier_fields q = (enabled_carrier q, dphi q, phi q, nco q)"

definition multipath_fields :: "channel \<Rightarrow> int \<times> firfilt_s option \<times> complex list \<times> nat" where
  "multipath_fields q = (enabled_multipath q, channel_filter q, h q, h_len q)"

subsection \<open>Concrete inputs\<close>

text \<open>
  A zeroed heap block, and a process whose generator returns 2, 3, 4, ... and whose
  compiler calls the right operand first.
\<close>

definition demo_raw :: channel where
  "demo_raw =
     \<lparr>enabled_awgn = 0, gamma = 0, nstd = 0, noise_floor_dB = 0, SNRdB = 0,
      enabled_carrier = 0, dphi = 0, phi = 0,
      nco = \<lparr>nco_type = LIQUID_NCO, theta = 0, d_theta = 0\<rparr>,
      enabled_multipath = 0, channel_filter = None, h = [], h_len = 0\<rparr>"

definition demo_env :: env where
  "demo_env =
     \<lparr>stdout = [], stderr = [], randn = (\<lambda>k. real k + 2), randn_pos = 0,
      left_first = (\<lambda>n. False), uninit = 0\<rparr>"

text \<open>
  An engine with all three stages configured: gain 2, noise standard deviation 1, an
  oscillator at phase 0 advancing by \<open>pi\<close> per sample, and the two-tap filter
  \<open>[1, 2]\<close> with an empty delay line.
\<close>

definition demo_engine :: channel where
  "demo_engine =
     \<lparr>enabled_awgn = 1, gamma = 2, nstd = 1, noise_floor_dB = 0, SNRdB = 0,
      enabled_carrier = 1, dphi = pi, phi = 0,
      nco = \<lparr>nco_type = LIQUID_VCO, theta = 0, d_theta = pi\<rparr>,
      enabled_multipath = 1,
      channel_filter = Some \<lparr>fir_h = [1, 2], fir_w = [0, 0]\<rparr>,
      h = [1, 2], h_len = 2\<rparr>"

section \<open>Properties\<close>

declare execute_loop.simps [simp del]
declare add_multipath_loop.simps [simp del]

subsection \<open>The loop of execute, sample by sample\<close>

lemma execute_body_sample:
  assumes "i < length x" "i < length y"
  shows "execute_body q e x y i =
           (if filter_missing q then Undefined
            else (case process_sample q e (x ! i) of
                    (q1, e1, w) \<Rightarrow> Returned (q1, e1, y[i := w])))"
  using assms
  by (auto simp: execute_body_def apply_filter_def apply_carrier_def apply_awgn_def
        filter_missing_def process_sample_def stage_multipath_def stage_carrier_def
        stage_noise_def nco_mix_up_def randnf_operands_def randnf_def M_SQRT1_2_def Let_def
        split: option.splits prod.splits)

lemma run_samples_length:
  "run_samples q e vs = Some (q1, e1, ws) \<Longrightarrow> length ws = length vs"
  by (induction vs arbitrary: q e q1 e1 ws) (auto split: if_splits prod.splits option.splits)

lemma run_samples_append:
  "run_samples q e (us @ vs) =
     (case run_samples q e us of
        None \<Rightarrow> None
      | Some (q1, e1, ws) \<Rightarrow>
          (case run_samples q1 e1 vs of
             None \<Rightarrow> None
           | Some (q2, e2, ws') \<Rightarrow> Some (q2, e2, ws @ ws')))"
  by (induction us arbitrary: q e) (auto split: if_splits prod.splits option.splits)

lemma execute_loop_samples:
  "i \<le> nx \<Longrightarrow> nx \<le> length x \<Longrightarrow> nx \<le> length y \<Longrightarrow>
   execute_loop q e x nx y i =
     (case run_samples q e (drop i (take nx x)) of
        None \<Rightarrow> Undefined
      | Some (q1, e1, ws) \<Rightarrow> Returned (q1, e1, take i y @ ws @ drop nx y))"
proof (induction q e x nx y i rule: execute_loop.induct)
  case (1 q e x nx y i)
  show ?case
  proof (cases "i < nx")
    case False
    with 1(2) have "i = nx" by simp
    then show ?thesis using 1(3,4) by (simp add: execute_loop.simps)
  next
    case True
    then have ix: "i < length x" and iy: "i < length y" using 1(3,4) by simp_all
    have dr: "drop i (take nx x) = x ! i # drop (Suc i) (take nx x)"
      using True ix by (simp add: Cons_nth_drop_Suc [symmetric])
    show ?thesis
    proof (cases "filter_missing q")
      case True
      then show ?thesis using \<open>i < nx\<close> ix iy
        by (simp add: execute_loop.simps [of q e x nx y i] execute_body_sample dr)
    next
      case False
      obtain q1 e1 w where ps: "process_sample q e (x ! i) = (q1, e1, w)"
        by (cases "process_sample q e (x ! i)") auto
      have body: "execute_body q e x y i = Returned (q1, e1, y[i := w])"
        using False ix iy ps by (simp add: execute_body_sample)
      have ih: "execute_loop q1 e1 x nx (y[i := w]) (Suc i) =
             (case run_samples q1 e1 (drop (Suc i) (take nx x)) of
                None \<Rightarrow> Undefined
              | Some (q2, e2, ws) \<Rightarrow>
                  Returned (q2, e2, take (Suc i) (y[i := w]) @ ws @ drop nx (y[i := w])))"
        using 1(1) [OF True body refl refl] True 1(3,4) by simp
      have tk: "take (Suc i) (y[i := w]) = take i y @ [w]"
        using iy by (simp add: take_Suc_conv_app_nth)
      have dp: "drop nx (y[i := w]) = drop nx y"
        using True by simp
      show ?thesis
        using True False ps body ih
        by (simp add: execute_loop.simps [of q e x nx y i] dr tk dp split: option.splits)
    qed
  qed
qed

lemma execute_samples:
  "nx \<le> length x \<Longrightarrow> nx \<le> length y \<Longrightarrow>
   execute q e x nx y =
     (case run_samples q e (take nx x) of
        None \<Rightarrow> Undefined
      | Some (q1, e1, ws) \<Rightarrow> Returned (q1, e1, ws @ drop nx y, nx))"
  by (simp add: execute_def execute_loop_samples split: option.splits)

lemma process_sample_filter_ready:
  "\<not> filter_missing q \<Longrightarrow> process_sample q e v = (q1, e1, w) \<Longrightarrow> \<not> filter_missing q1"
  by (auto simp: filter_missing_def process_sample_def stage_multipath_def stage_carrier_def
        stage_noise_def Let_def split: if_splits option.splits prod.splits)

lemma run_samples_process:
  "\<not> filter_missing q \<Longrightarrow> run_samples q e vs = Some (process_samples q e vs)"
proof (induction vs arbitrary: q e)
  case Nil
  show ?case by simp
next
  case (Cons v vs)
  obtain q1 e1 w where ps: "process_sample q e v = (q1, e1, w)"
    by (cases "process_sample q e v") auto
  have "\<not> filter_missing q1"
    using Cons.prems ps by (rule process_sample_filter_ready)
  then have "run_samples q1 e1 vs = Some (process_samples q1 e1 vs)"
    by (rule Cons.IH)
  then show ?case
    using Cons.prems ps by (simp split: prod.splits)
qed

lemma process_sample_disabled:
  "enabled_multipath q = 0 \<Longrightarrow> enabled_carrier q = 0 \<Longrightarrow> enabled_awgn q = 0 \<Longrightarrow>
   process_sample q e v = (q, e, v)"
  by (simp add: process_sample_def stage_multipath_def stage_carrier_def stage_noise_def)

lemma process_samples_disabled:
  "enabled_multipath q = 0 \<Longrightarrow> enabled_carrier q = 0 \<Longrightarrow> enabled_awgn q = 0 \<Longrightarrow>
   process_samples q e vs = (q, e, vs)"
  by (induction vs) (simp_all add: process_sample_disabled)

subsection \<open>What each call may change\<close>

lemma add_multipath_loop_only_h:
  "add_multipath_loop q e i = (q1, e1) \<Longrightarrow> q1 = q\<lparr>h := h q1\<rparr>"
proof (induction q e i arbitrary: q1 e1 rule: add_multipath_loop.induct)
  case (1 q e i)
  show ?case
  proof (cases "i < h_len q")
    case False
    then show ?thesis using "1.prems" by (simp add: add_multipath_loop.simps [of q e i])
  next
    case True
    obtain g1 ea where r1: "randnf e = (g1, ea)" by (cases "randnf e") auto
    obtain g2 eb where r2: "randnf ea = (g2, eb)" by (cases "randnf ea") auto
    have "add_multipath_loop
            (q\<lparr>h := (h q)[i := 0.05 * (of_real g1 * \<i> * of_real g2)]\<rparr>) eb (Suc i) = (q1, e1)"
      using "1.prems" True r1 r2 by (simp add: add_multipath_loop.simps [of q e i])
    then have "q1 = (q\<lparr>h := (h q)[i := 0.05 * (of_real g1 * \<i> * of_real g2)]\<rparr>)\<lparr>h := h q1\<rparr>"
      by (rule "1.IH" [OF True r1 [symmetric] r2 [symmetric]])
    then show ?thesis by simp
  qed
qed

lemma add_multipath_only_multipath:
  assumes "add_multipath q e hs n = Returned (q1, e1) \<or> add_multipath q e hs n = Exited c (q1, e1)"
  shows "q1 = q\<lparr>enabled_multipath := enabled_multipath q1, channel_filter := channel_filter q1,
                  h := h q1, h_len := h_len q1\<rparr>
         \<and> (enabled_multipath q \<noteq> 0 \<longrightarrow> enabled_multipath q1 \<noteq> 0)"
proof (cases "n = 0 \<or> 1000 < n")
  case True
  then show ?thesis using assms by (auto simp: add_multipath_def split: if_splits)
next
  case False
  show ?thesis
  proof (cases hs)
    case (Some cs)
    then show ?thesis using assms False
      by (auto simp: add_multipath_def Let_def split: if_splits)
  next
    case None
    define q3 where "q3 = (if h_len q \<noteq> n
        then q\<lparr>enabled_multipath := 1, h := realloc (h q) n (uninit e), h_len := n\<rparr>
        else q\<lparr>enabled_multipath := 1, h_len := n\<rparr>)"
    obtain q4 e4 where lp: "add_multipath_loop (q3\<lparr>h := (h q3)[0 := 1]\<rparr>) e 1 = (q4, e4)"
      by (cases "add_multipath_loop (q3\<lparr>h := (h q3)[0 := 1]\<rparr>) e 1") auto
    have q4: "q4 = q3\<lparr>h := h q4\<rparr>"
      using add_multipath_loop_only_h [OF lp] by simp
    have "q1 = q4\<lparr>channel_filter := Some (firfilt_create (h q4) (h_len q4))\<rparr>"
      using assms False None lp
      by (auto simp: add_multipath_def Let_def q3_def split: if_splits)
    then have "q1 = q3\<lparr>h := h q4, channel_filter := Some (firfilt_create (h q4) (h_len q4))\<rparr>"
      using q4 by simp
    then show ?thesis
      by (auto simp: q3_def split: if_splits)
  qed
qed

lemma execute_body_only_state:
  "execute_body q e x y i = Returned (q1, e1, y1) \<Longrightarrow>
   q1 = q\<lparr>nco := nco q1, channel_filter := channel_filter q1\<rparr>"
  by (auto simp: execute_body_def apply_filter_def apply_carrier_def apply_awgn_def Let_def
        split: if_splits option.splits prod.splits outcome.splits)

lemma execute_loop_only_state:
  "execute_loop q e x nx y i = Returned (q1, e1, y1) \<Longrightarrow>
   q1 = q\<lparr>nco := nco q1, channel_filter := channel_filter q1\<rparr>"
proof (induction q e x nx y i rule: execute_loop.induct)
  case (1 q e x nx y i)
  show ?case
  proof (cases "i < nx")
    case False
    then show ?thesis using "1.prems" by (simp add: execute_loop.simps [of q e x nx y i])
  next
    case True
    obtain qa ea ya where body: "execute_body q e x y i = Returned (qa, ea, ya)"
      and rest: "execute_loop qa ea x nx ya (Suc i) = Returned (q1, e1, y1)"
      using "1.prems" True
      by (auto simp: execute_loop.simps [of q e x nx y i] split: outcome.splits)
    have "q1 = qa\<lparr>nco := nco q1, channel_filter := channel_filter q1\<rparr>"
      using "1.IH" [OF True body refl refl rest] .
    moreover have "qa = q\<lparr>nco := nco qa, channel_filter := channel_filter qa\<rparr>"
      using body by (rule execute_body_only_state)
    ultimately show ?thesis
      by (metis (no_types, lifting) channel.surjective channel.update_convs(9,11))
  qed
qed

lemma perform_flags:
  assumes "perform p q e = Returned (q1, e1) \<or> perform p q e = Exited c (q1, e1)"
  shows "(enabled_awgn q \<noteq> 0 \<longrightarrow> enabled_awgn q1 \<noteq> 0)
         \<and> (enabled_carrier q \<noteq> 0 \<longrightarrow> enabled_carrier q1 \<noteq> 0)
         \<and> (enabled_multipath q \<noteq> 0 \<longrightarrow> enabled_multipath q1 \<noteq> 0)"
proof (cases p)
  case Print
  then show ?thesis using assms by auto
next
  case (Add_awgn nf snr)
  then show ?thesis using assms by (auto simp: add_awgn_def)
next
  case (Add_carrier_offset f ph)
  then show ?thesis using assms by (auto simp: add_carrier_offset_def)
next
  case (Add_multipath hs n)
  then have "add_multipath q e hs n = Returned (q1, e1) \<or> add_multipath q e hs n = Exited c (q1, e1)"
    using assms by simp
  from add_multipath_only_multipath [OF this]
  have eq: "q1 = q\<lparr>enabled_multipath := enabled_multipath q1,
                    channel_filter := channel_filter q1, h := h q1, h_len := h_len q1\<rparr>"
    and mp: "enabled_multipath q \<noteq> 0 \<longrightarrow> enabled_multipath q1 \<noteq> 0"
    by simp_all
  have "enabled_awgn q1 = enabled_awgn q" "enabled_carrier q1 = enabled_carrier q"
    by (subst eq, simp)+
  then show ?thesis using mp by simp
next
  case (Execute x nx y)
  then obtain y1 where "execute_loop q e x nx y 0 = Returned (q1, e1, y1)"
    using assms by (auto simp: execute_def split: outcome.splits)
  then have eq: "q1 = q\<lparr>nco := nco q1, channel_filter := channel_filter q1\<rparr>"
    by (rule execute_loop_only_state)
  have "enabled_awgn q1 = enabled_awgn q" "enabled_carrier q1 = enabled_carrier q"
     "enabled_multipath q1 = enabled_multipath q"
    by (subst eq, simp)+
  then show ?thesis by simp
qed

text \<open>
  Every engine that the interface can produce has a filter whenever its multipath
  flag is set: \<open>create\<close> clears the flag, and the only assignment that sets it is
  followed by the construction of the filter.
\<close>

lemma create_filter_ready: "\<not> filter_missing (create raw hs n)"
  by (simp add: filter_missing_def create_def)

lemma execute_body_filter_kept:
  "execute_body q e x y i = Returned (q1, e1, y1) \<Longrightarrow> channel_filter q \<noteq> None \<Longrightarrow>
   channel_filter q1 \<noteq> None"
  by (auto simp: execute_body_def apply_filter_def apply_carrier_def apply_awgn_def Let_def
        split: if_splits option.splits prod.splits outcome.splits)

lemma execute_loop_filter_kept:
  "execute_loop q e x nx y i = Returned (q1, e1, y1) \<Longrightarrow> channel_filter q \<noteq> None \<Longrightarrow>
   channel_filter q1 \<noteq> None"
proof (induction q e x nx y i rule: execute_loop.induct)
  case (1 q e x nx y i)
  show ?case
  proof (cases "i < nx")
    case False
    then show ?thesis using "1.prems" by (simp add: execute_loop.simps [of q e x nx y i])
  next
    case True
    obtain qa ea ya where body: "execute_body q e x y i = Returned (qa, ea, ya)"
      and rest: "execute_loop qa ea x nx ya (Suc i) = Returned (q1, e1, y1)"
      using "1.prems"(1) True
      by (auto simp: execute_loop.simps [of q e x nx y i] split: outcome.splits)
    have "channel_filter qa \<noteq> None"
      using body "1.prems"(2) by (rule execute_body_filter_kept)
    with "1.IH" [OF True body refl refl rest] show ?thesis .
  qed
qed

lemma execute_loop_filter_ready:
  assumes run: "execute_loop q e x nx y i = Returned (q1, e1, y1)"
    and ok: "\<not> filter_missing q"
  shows "\<not> filter_missing q1"
proof (cases "enabled_multipath q = 0")
  case True
  have eq: "q1 = q\<lparr>nco := nco q1, channel_filter := channel_filter q1\<rparr>"
    using run by (rule execute_loop_only_state)
  have "enabled_multipath q1 = enabled_multipath q"
    by (subst eq) simp
  then show ?thesis using True by (simp add: filter_missing_def)
next
  case False
  then have "channel_filter q \<noteq> None"
    using ok by (simp add: filter_missing_def)
  with run have "channel_filter q1 \<noteq> None"
    by (rule execute_loop_filter_kept)
  then show ?thesis by (simp add: filter_missing_def)
qed

lemma perform_filter_ready:
  assumes "perform p q e = Returned (q1, e1)" and "\<not> filter_missing q"
  shows "\<not> filter_missing q1"
proof (cases p)
  case Print
  then show ?thesis using assms by auto
next
  case (Add_awgn nf snr)
  then show ?thesis using assms by (auto simp: add_awgn_def filter_missing_def)
next
  case (Add_carrier_offset f ph)
  then show ?thesis using assms by (auto simp: add_carrier_offset_def filter_missing_def)
next
  case (Add_multipath hs n)
  then show ?thesis using assms
    by (auto simp: add_multipath_def filter_missing_def Let_def
          split: if_splits option.splits prod.splits)
next
  case (Execute x nx y)
  then obtain y1 where "execute_loop q e x nx y 0 = Returned (q1, e1, y1)"
    using assms by (auto simp: execute_def split: outcome.splits)
  then show ?thesis using assms(2) by (rule execute_loop_filter_ready)
qed

lemma perform_all_filter_ready:
  "perform_all ps q e = Returned (q1, e1) \<Longrightarrow> \<not> filter_missing q \<Longrightarrow> \<not> filter_missing q1"
proof (induction ps arbitrary: q e)
  case Nil
  then show ?case by simp
next
  case (Cons p ps)
  obtain qa ea where step: "perform p q e = Returned (qa, ea)"
    and rest: "perform_all ps qa ea = Returned (q1, e1)"
    using Cons.prems(1) by (auto split: outcome.splits)
  have "\<not> filter_missing qa"
    using step Cons.prems(2) by (rule perform_filter_ready)
  with rest show ?case by (rule Cons.IH)
qed

lemma reachable_filter_ready:
  "perform_all ps (create raw hs n) e = Returned (q1, e1) \<Longrightarrow> \<not> filter_missing q1"
  by (rule perform_all_filter_ready [OF _ create_filter_ready])

subsection \<open>Noise configuration\<close>

text \<open>
  \<open>add_awgn\<close> sets the flag and stores its two arguments. The noise fields after the
  call are a function of the two arguments alone, so a second call overwrites the
  first entirely. The two derived values are single-precision results of \<open>powf\<close>,
  which the model idealises; no statement is made about them.
\<close>

lemma add_awgn_overwrites:
  "enabled_awgn (add_awgn q nf snr) = 1
   \<and> noise_floor_dB (add_awgn q nf snr) = nf
   \<and> SNRdB (add_awgn q nf snr) = snr
   \<and> noise_fields (add_awgn q nf snr) = noise_fields (add_awgn q' nf snr)
   \<and> add_awgn (add_awgn q nf' snr') nf snr = add_awgn q nf snr"
  by (simp add: add_awgn_def noise_fields_def)

subsection \<open>Creation\<close>

text \<open>
  Claim C8, as the specification states it, fails: \<open>create\<close> builds no filter. For a
  zeroed heap block the engine returned does not have all of: the three stages
  disabled, oscillator frequency and phase zero, coefficients \<open>[1.0]\<close>, and a one-tap
  filter built from the coefficients.
\<close>

theorem create_builds_no_filter:
  "\<not> (enabled_awgn (create demo_raw None 0) = 0
      \<and> enabled_carrier (create demo_raw None 0) = 0
      \<and> enabled_multipath (create demo_raw None 0) = 0
      \<and> d_theta (nco (create demo_raw None 0)) = 0
      \<and> theta (nco (create demo_raw None 0)) = 0
      \<and> h (create demo_raw None 0) = [1]
      \<and> channel_filter (create demo_raw None 0)
          = Some (firfilt_create (h (create demo_raw None 0)) (h_len (create demo_raw None 0))))"
  by (simp add: create_def)

text \<open>
  Claim C8, amended. \<open>create\<close> returns an engine with all three stages disabled, a
  freshly created oscillator with frequency and phase both zero, the coefficient
  sequence \<open>[1.0]\<close> of length 1, and a null filter handle in place of a filter.
\<close>

theorem create_fresh_engine:
  "enabled_awgn (create raw hs n) = 0
   \<and> enabled_carrier (create raw hs n) = 0
   \<and> enabled_multipath (create raw hs n) = 0
   \<and> nco (create raw hs n) = nco_create LIQUID_VCO
   \<and> d_theta (nco (create raw hs n)) = 0
   \<and> theta (nco (create raw hs n)) = 0
   \<and> h (create raw hs n) = [1]
   \<and> h_len (create raw hs n) = 1
   \<and> channel_filter (create raw hs n) = None"
  by (simp add: create_def nco_create_def)

subsection \<open>Multipath configuration: the two rejected lengths\<close>

text \<open>
  Claim C4. For every call of \<open>add_multipath\<close> with a length greater than 1000 the
  process exits with status 1 after the message on \<open>stderr\<close>. The engine at the exit is
  the engine before the call, whole: no filter has been rebuilt and the coefficients
  have been neither truncated nor clamped.
\<close>

theorem add_multipath_over_length:
  "1000 < n \<Longrightarrow> add_multipath q e hs n = Exited 1 (q, fprintf_stderr e warning_maximum)"
  by (simp add: add_multipath_def)

theorem add_multipath_over_length_witness:
  "(1000::nat) < 1001
   \<and> add_multipath (create demo_raw None 0) demo_env (Some (replicate 1001 1)) 1001
       = Exited 1 (create demo_raw None 0, fprintf_stderr demo_env warning_maximum)"
  using add_multipath_over_length
    [of 1001 "create demo_raw None 0" demo_env "Some (replicate 1001 1)"]
  by simp

text \<open>
  Claim C5. For every engine, \<open>add_multipath\<close> with length 0 returns the engine as it
  was (flag, coefficients, length and filter included); the only effect is the
  warning appended to \<open>stderr\<close>, and no random value is drawn.
\<close>

theorem add_multipath_zero_length:
  "add_multipath q e hs 0 = Returned (q, fprintf_stderr e warning_zero)
   \<and> stderr (fprintf_stderr e warning_zero) = stderr e @ [warning_zero]
   \<and> randn_pos (fprintf_stderr e warning_zero) = randn_pos e"
  by (simp add: add_multipath_def fprintf_stderr_def)

subsection \<open>Multipath configuration: synthesized coefficients\<close>

lemma add_multipath_loop_taps:
  "add_multipath_loop q e i = (q1, e1) \<Longrightarrow>
   length (h q1) = length (h q)
   \<and> (\<forall>j<i. h q1 ! j = h q ! j)
   \<and> (\<forall>j. i \<le> j \<and> j < h_len q \<and> j < length (h q) \<longrightarrow> Re (h q1 ! j) = 0)"
proof (induction q e i arbitrary: q1 e1 rule: add_multipath_loop.induct)
  case (1 q e i)
  show ?case
  proof (cases "i < h_len q")
    case False
    then show ?thesis using "1.prems" by (simp add: add_multipath_loop.simps [of q e i])
  next
    case True
    obtain g1 ea where r1: "randnf e = (g1, ea)" by (cases "randnf e") auto
    obtain g2 eb where r2: "randnf ea = (g2, eb)" by (cases "randnf ea") auto
    define qa where "qa = q\<lparr>h := (h q)[i := 0.05 * (of_real g1 * \<i> * of_real g2)]\<rparr>"
    have "add_multipath_loop qa eb (Suc i) = (q1, e1)"
      using "1.prems" True r1 r2 by (simp add: add_multipath_loop.simps [of q e i] qa_def)
    then have ih: "length (h q1) = length (h qa)
       \<and> (\<forall>j<Suc i. h q1 ! j = h qa ! j)
       \<and> (\<forall>j. Suc i \<le> j \<and> j < h_len qa \<and> j < length (h qa) \<longrightarrow> Re (h q1 ! j) = 0)"
      unfolding qa_def by (rule "1.IH" [OF True r1 [symmetric] r2 [symmetric]])
    have len: "length (h qa) = length (h q)" and hl: "h_len qa = h_len q"
      by (simp_all add: qa_def)
    have keep: "\<forall>j<i. h qa ! j = h q ! j"
      by (simp add: qa_def)
    have new: "i < length (h q) \<longrightarrow> Re (h qa ! i) = 0"
      by (simp add: qa_def)
    show ?thesis
    proof (intro conjI allI impI)
      show "length (h q1) = length (h q)" using ih len by simp
    next
      fix j assume "j < i"
      then show "h q1 ! j = h q ! j" using ih keep by simp
    next
      fix j assume j: "i \<le> j \<and> j < h_len q \<and> j < length (h q)"
      show "Re (h q1 ! j) = 0"
      proof (cases "j = i")
        case True
        then show ?thesis using ih new j by simp
      next
        case False
        then have "Suc i \<le> j" using j by simp
        then show ?thesis using ih j len hl by simp
      qed
    qed
  qed
qed

text \<open>
  With a null coefficient pointer and a length from 1 to 1000, tap 0 is \<open>1\<close> and every
  later tap has real part zero: the source multiplies the two draws,
  \<open>randnf() * _Complex_I*randnf()\<close>, so each tap is \<open>0.05 * i * g1 * g2\<close>.
\<close>

lemma add_multipath_random_taps:
  assumes "add_multipath q e None n = Returned (q1, e1)" and "0 < n"
  shows "h_len q1 = n \<and> h q1 ! 0 = 1 \<and> (\<forall>i. 1 \<le> i \<and> i < n \<longrightarrow> Re (h q1 ! i) = 0)"
proof -
  define q3 where "q3 = (if h_len q \<noteq> n
      then q\<lparr>enabled_multipath := 1, h := realloc (h q) n (uninit e), h_len := n\<rparr>
      else q\<lparr>enabled_multipath := 1, h_len := n\<rparr>)"
  have n: "n \<le> 1000" and big: "n \<le> length (h q3)" and hl: "h_len q3 = n"
    using assms by (auto simp: add_multipath_def Let_def q3_def split: if_splits)
  obtain q4 e4 where lp: "add_multipath_loop (q3\<lparr>h := (h q3)[0 := 1]\<rparr>) e 1 = (q4, e4)"
    by (cases "add_multipath_loop (q3\<lparr>h := (h q3)[0 := 1]\<rparr>) e 1") auto
  have q1: "q1 = q4\<lparr>channel_filter := Some (firfilt_create (h q4) (h_len q4))\<rparr>"
    using assms lp by (auto simp: add_multipath_def Let_def q3_def split: if_splits)
  have q4: "q4 = q3\<lparr>h := h q4\<rparr>"
    using add_multipath_loop_only_h [OF lp] by simp
  have "h_len q4 = h_len q3" by (subst q4) simp
  then have len: "h_len q1 = n" using q1 hl by simp
  have pos: "0 < length (h q3)" using big assms(2) by (rule less_le_trans [rotated])
  from add_multipath_loop_taps [OF lp]
  have zero: "h q4 ! 0 = 1"
    and rest: "\<forall>j. 1 \<le> j \<and> j < n \<and> j < length (h q3) \<longrightarrow> Re (h q4 ! j) = 0"
    using pos hl by simp_all
  show ?thesis
    using len zero rest big q1 by simp
qed

text \<open>
  Claim C3 says that every synthesized tap at an index from 1 on is \<open>0.05\<close> times a
  complex value whose real part is one Gaussian draw and whose imaginary part is
  another. On the code this fails. For a fresh engine, a generator returning
  \<open>2, 3, 4, 5\<close> and length 3, the code stores \<open>[1, 0.3 i, 1.0 i]\<close>; tap 1 is not
  \<open>0.05 * (2 + 3 i)\<close>, the value the claim gives for the draws 2 and 3.
\<close>

theorem add_multipath_synthesized_taps:
  "add_multipath (create demo_raw None 0) demo_env None 3
     = Returned
         ((create demo_raw None 0)
            \<lparr>enabled_multipath := 1,
             channel_filter := Some \<lparr>fir_h = [1, Complex 0 (3 / 10), Complex 0 1],
                                     fir_w = [0, 0, 0]\<rparr>,
             h := [1, Complex 0 (3 / 10), Complex 0 1],
             h_len := 3\<rparr>,
          demo_env\<lparr>randn_pos := 4\<rparr>)
   \<and> randn demo_env 0 = 2 \<and> randn demo_env 1 = 3
   \<and> Complex 0 (3 / 10) \<noteq> 0.05 * Complex 2 3"
  by (simp add: add_multipath_def create_def demo_raw_def demo_env_def Let_def realloc_def
        add_multipath_loop.simps randnf_def firfilt_create_def complex_eq_iff
        numeral_3_eq_3)

subsection \<open>Each configurator keeps to its own stage\<close>

text \<open>
  Claim C10. \<open>add_awgn\<close> leaves the carrier fields (flag, frequency, phase,
  oscillator) and the multipath fields (flag, filter, coefficients, length) as they
  were; \<open>add_carrier_offset\<close> leaves the noise fields and the multipath fields as they
  were; an \<open>add_multipath\<close> that returns leaves the noise fields and the carrier
  fields as they were.
\<close>

theorem configurators_frame:
  "carrier_fields (add_awgn q nf snr) = carrier_fields q
   \<and> multipath_fields (add_awgn q nf snr) = multipath_fields q
   \<and> noise_fields (add_carrier_offset q f p) = noise_fields q
   \<and> multipath_fields (add_carrier_offset q f p) = multipath_fields q
   \<and> (add_multipath q e hs n = Returned (q1, e1) \<longrightarrow>
        noise_fields q1 = noise_fields q \<and> carrier_fields q1 = carrier_fields q)"
proof -
  have "noise_fields q1 = noise_fields q \<and> carrier_fields q1 = carrier_fields q"
    if "add_multipath q e hs n = Returned (q1, e1)"
  proof -
    have eq: "q1 = q\<lparr>enabled_multipath := enabled_multipath q1,
                  channel_filter := channel_filter q1, h := h q1, h_len := h_len q1\<rparr>"
      using add_multipath_only_multipath [of q e hs n q1 e1 1] that by simp
    have "enabled_awgn q1 = enabled_awgn q" "gamma q1 = gamma q" "nstd q1 = nstd q"
      "noise_floor_dB q1 = noise_floor_dB q" "SNRdB q1 = SNRdB q"
      "enabled_carrier q1 = enabled_carrier q" "dphi q1 = dphi q" "phi q1 = phi q"
      "nco q1 = nco q"
      by (subst eq, simp)+
    then show ?thesis
      by (simp add: noise_fields_def carrier_fields_def)
  qed
  then show ?thesis
    by (simp add: add_awgn_def add_carrier_offset_def noise_fields_def carrier_fields_def
          multipath_fields_def)
qed

theorem configurators_frame_witness:
  "\<exists>q1 e1.
     add_multipath (add_carrier_offset (add_awgn (create demo_raw None 0) 0 20) 1 2)
       demo_env None 3 = Returned (q1, e1)
     \<and> noise_fields q1
         = noise_fields (add_carrier_offset (add_awgn (create demo_raw None 0) 0 20) 1 2)
     \<and> carrier_fields q1
         = carrier_fields (add_carrier_offset (add_awgn (create demo_raw None 0) 0 20) 1 2)"
proof -
  obtain q1 e1 where run:
    "add_multipath (add_carrier_offset (add_awgn (create demo_raw None 0) 0 20) 1 2)
       demo_env None 3 = Returned (q1, e1)"
    by (simp add: add_awgn_def add_carrier_offset_def add_multipath_def create_def
          demo_raw_def demo_env_def Let_def realloc_def add_multipath_loop.simps randnf_def
          split: prod.splits)
  show ?thesis
    using configurators_frame
      [of "add_carrier_offset (add_awgn (create demo_raw None 0) 0 20) 1 2" _ _ _ _
          demo_env None 3 q1 e1] run
    by blast
qed

subsection \<open>Execution\<close>

text \<open>
  The two operand values of the noise term are the next two values of the generator,
  in the one or the other order, and the generator has advanced by two.
\<close>

lemma randnf_operands_fresh:
  "snd (randnf_operands e) = e\<lparr>randn_pos := Suc (Suc (randn_pos e))\<rparr>
   \<and> fst (randnf_operands e)
       = (if left_first e (randn_pos e)
          then (randn e (randn_pos e), randn e (Suc (randn_pos e)))
          else (randn e (Suc (randn_pos e)), randn e (randn_pos e)))"
  by (simp add: randnf_operands_def randnf_def)

text \<open>
  Claim C1. For every engine and every input buffer holding at least \<open>nx\<close> samples
  (the output buffer holding room for as many), \<open>execute\<close> returns what the
  sample-by-sample pipeline of the specification returns on the first \<open>nx\<close> samples
  taken in index order: each sample goes through the multipath stage (push, then
  pop), then the carrier stage (mix up), then the noise stage (times the gain, plus
  \<open>nstd * (g1 + i*g2) * (1/sqrt 2)\<close> for two fresh draws), a disabled stage being the
  identity. The two draws are the next two values of the generator; which of them is
  \<open>g1\<close> is the compiler's choice of the order of the two calls, and the statement
  holds for every choice. The outputs fill the first \<open>nx\<close> places of the output
  buffer, the rest of the buffer is untouched, and \<open>*_ny\<close> is \<open>nx\<close>. The one exception
  is an engine
  whose multipath flag is set while its filter handle is null, which no call of the
  interface produces: there the first sample passes the null handle to the filter.
\<close>

theorem execute_pipeline:
  assumes "nx \<le> length x" and "nx \<le> length y"
  shows "execute q e x nx y =
           (if filter_missing q \<and> 0 < nx then Undefined
            else (case process_samples q e (take nx x) of
                    (q1, e1, ws) \<Rightarrow> Returned (q1, e1, ws @ drop nx y, nx)))"
proof (cases "filter_missing q")
  case False
  then show ?thesis
    using assms by (simp add: execute_samples run_samples_process)
next
  case True
  show ?thesis
  proof (cases "nx = 0")
    case True
    then show ?thesis using assms by (simp add: execute_samples)
  next
    case False
    then have "take nx x \<noteq> []" using assms(1) by auto
    then obtain v vs where "take nx x = v # vs"
      by (cases "take nx x") auto
    then show ?thesis
      using assms \<open>filter_missing q\<close> False by (simp add: execute_samples)
  qed
qed

theorem execute_pipeline_witness:
  "(2::nat) \<le> length [1, \<i>] \<and> (2::nat) \<le> length [0, 0, 7 :: complex]
   \<and> \<not> filter_missing demo_engine
   \<and> execute demo_engine demo_env [1, \<i>] 2 [0, 0, 7]
       = Returned
           (demo_engine\<lparr>nco := \<lparr>nco_type = LIQUID_VCO, theta = 2 * pi, d_theta = pi\<rparr>,
                        channel_filter := Some \<lparr>fir_h = [1, 2], fir_w = [\<i>, 1]\<rparr>\<rparr>,
            demo_env\<lparr>randn_pos := 4\<rparr>,
            [2 + (3 + \<i> * 2) * of_real (1 / sqrt 2),
             - (2 + \<i>) * 2 + (5 + \<i> * 4) * of_real (1 / sqrt 2),
             7],
            2)
   \<and> execute demo_engine (demo_env\<lparr>left_first := (\<lambda>n. True)\<rparr>) [1, \<i>] 2 [0, 0, 7]
       = Returned
           (demo_engine\<lparr>nco := \<lparr>nco_type = LIQUID_VCO, theta = 2 * pi, d_theta = pi\<rparr>,
                        channel_filter := Some \<lparr>fir_h = [1, 2], fir_w = [\<i>, 1]\<rparr>\<rparr>,
            demo_env\<lparr>randn_pos := 4, left_first := (\<lambda>n. True)\<rparr>,
            [2 + (2 + \<i> * 3) * of_real (1 / sqrt 2),
             - (2 + \<i>) * 2 + (4 + \<i> * 5) * of_real (1 / sqrt 2),
             7],
            2)"
  using execute_pipeline [of 2 "[1, \<i>]" "[0, 0, 7]" demo_engine demo_env]
    execute_pipeline
      [of 2 "[1, \<i>]" "[0, 0, 7]" demo_engine "demo_env\<lparr>left_first := (\<lambda>n. True)\<rparr>"]
  by (simp add: filter_missing_def demo_engine_def demo_env_def process_sample_def
        stage_multipath_def stage_carrier_def stage_noise_def firfilt_push_def
        firfilt_execute_def nco_mix_up_def randnf_operands_def randnf_def Let_def
        numeral_2_eq_2)

text \<open>
  Claim C7. On an engine as \<open>create\<close> returns it, \<open>execute\<close> copies the first \<open>nx\<close>
  input samples to the output unchanged, sets \<open>*_ny\<close> to \<open>nx\<close>, and leaves the engine
  and the generator as they were.
\<close>

theorem execute_fresh_identity:
  assumes "nx \<le> length x" and "nx \<le> length y"
  shows "execute (create raw hs n) e x nx y
           = Returned (create raw hs n, e, take nx x @ drop nx y, nx)"
proof -
  have "\<not> filter_missing (create raw hs n)"
    by (simp add: filter_missing_def create_def)
  moreover have "process_samples (create raw hs n) e (take nx x) = (create raw hs n, e, take nx x)"
    by (rule process_samples_disabled) (simp_all add: create_def)
  ultimately show ?thesis
    using assms by (simp add: execute_samples run_samples_process)
qed

theorem execute_fresh_identity_witness:
  "(2::nat) \<le> length [1, \<i>, 5] \<and> (2::nat) \<le> length [0, 0, 7 :: complex]
   \<and> execute (create demo_raw None 0) demo_env [1, \<i>, 5] 2 [0, 0, 7]
       = Returned (create demo_raw None 0, demo_env, [1, \<i>, 7], 2)"
  using execute_fresh_identity [of 2 "[1, \<i>, 5]" "[0, 0, 7]" demo_raw None 0 demo_env]
  by (simp add: numeral_2_eq_2)

text \<open>
  Claim C6. For every engine, every buffer of \<open>N\<close> samples and every split point
  \<open>k \<le> N\<close>: one call of \<open>execute\<close> over the \<open>N\<close> samples gives the same output, the
  same final engine (oscillator phase and filter delay line included) and the same
  generator position as a call over the first \<open>k\<close> samples followed by a call over
  the remaining \<open>N - k\<close> samples (input \<open>_x + k\<close>, output \<open>_y + k\<close>) on the engine and
  generator the first call left. Should one side meet undefined behaviour, so does
  the other.
\<close>

theorem execute_split:
  assumes "k \<le> N" and "N \<le> length x" and "N \<le> length y"
  shows "execute q e x N y =
           (case execute q e x k y of
              Returned (q1, e1, y1, ny1) \<Rightarrow>
                (case execute q1 e1 (drop k x) (N - k) (drop k y1) of
                   Returned (q2, e2, y2, ny2) \<Rightarrow> Returned (q2, e2, take k y1 @ y2, ny1 + ny2)
                 | _ \<Rightarrow> Undefined)
            | _ \<Rightarrow> Undefined)"
proof -
  have kx: "k \<le> length x" and ky: "k \<le> length y"
    using assms by simp_all
  have split: "take N x = take k x @ take (N - k) (drop k x)"
    using assms(1) by (metis le_add_diff_inverse take_add)
  show ?thesis
  proof (cases "run_samples q e (take k x)")
    case None
    then show ?thesis
      using assms kx ky by (simp add: execute_samples split run_samples_append)
  next
    case (Some r)
    obtain q1 e1 ws where r: "r = (q1, e1, ws)" by (cases r) auto
    have len: "length ws = k"
      using Some r kx run_samples_length [of q e "take k x" q1 e1 ws] by simp
    have first: "execute q e x k y = Returned (q1, e1, ws @ drop k y, k)"
      using Some r kx ky by (simp add: execute_samples)
    have dd: "drop (N - k) (drop k y) = drop N y"
      using assms(1) by simp
    have second: "execute q1 e1 (drop k x) (N - k) (drop k (ws @ drop k y)) =
            (case run_samples q1 e1 (take (N - k) (drop k x)) of
               None \<Rightarrow> Undefined
             | Some (q2, e2, ws') \<Rightarrow> Returned (q2, e2, ws' @ drop N y, N - k))"
      using assms len by (simp add: execute_samples dd del: drop_drop split: option.splits)
    show ?thesis
      using assms Some r len first second
      by (simp add: execute_samples [of N] split run_samples_append split: option.splits)
  qed
qed

theorem execute_split_witness:
  "(1::nat) \<le> 2 \<and> (2::nat) \<le> length [1, \<i>] \<and> (2::nat) \<le> length [0, 0, 7 :: complex]
   \<and> execute demo_engine demo_env [1, \<i>] 1 [0, 0, 7]
       = Returned
           (demo_engine\<lparr>nco := \<lparr>nco_type = LIQUID_VCO, theta = pi, d_theta = pi\<rparr>,
                        channel_filter := Some \<lparr>fir_h = [1, 2], fir_w = [1, 0]\<rparr>\<rparr>,
            demo_env\<lparr>randn_pos := 2\<rparr>,
            [2 + (3 + \<i> * 2) * of_real (1 / sqrt 2), 0, 7],
            1)
   \<and> execute
         (demo_engine\<lparr>nco := \<lparr>nco_type = LIQUID_VCO, theta = pi, d_theta = pi\<rparr>,
                      channel_filter := Some \<lparr>fir_h = [1, 2], fir_w = [1, 0]\<rparr>\<rparr>)
         (demo_env\<lparr>randn_pos := 2\<rparr>) [\<i>] 1 [0, 7]
       = Returned
           (demo_engine\<lparr>nco := \<lparr>nco_type = LIQUID_VCO, theta = 2 * pi, d_theta = pi\<rparr>,
                        channel_filter := Some \<lparr>fir_h = [1, 2], fir_w = [\<i>, 1]\<rparr>\<rparr>,
            demo_env\<lparr>randn_pos := 4\<rparr>,
            [- (2 + \<i>) * 2 + (5 + \<i> * 4) * of_real (1 / sqrt 2), 7],
            1)
   \<and> execute demo_engine demo_env [1, \<i>] 2 [0, 0, 7]
       = Returned
           (demo_engine\<lparr>nco := \<lparr>nco_type = LIQUID_VCO, theta = 2 * pi, d_theta = pi\<rparr>,
                        channel_filter := Some \<lparr>fir_h = [1, 2], fir_w = [\<i>, 1]\<rparr>\<rparr>,
            demo_env\<lparr>randn_pos := 4\<rparr>,
            [2 + (3 + \<i> * 2) * of_real (1 / sqrt 2),
             - (2 + \<i>) * 2 + (5 + \<i> * 4) * of_real (1 / sqrt 2),
             7],
            2)"
proof -
  have first: "execute demo_engine demo_env [1, \<i>] 1 [0, 0, 7]
       = Returned
           (demo_engine\<lparr>nco := \<lparr>nco_type = LIQUID_VCO, theta = pi, d_theta = pi\<rparr>,
                        channel_filter := Some \<lparr>fir_h = [1, 2], fir_w = [1, 0]\<rparr>\<rparr>,
            demo_env\<lparr>randn_pos := 2\<rparr>,
            [2 + (3 + \<i> * 2) * of_real (1 / sqrt 2), 0, 7],
            1)"
    by (simp add: execute_samples filter_missing_def demo_engine_def demo_env_def
          process_sample_def stage_multipath_def stage_carrier_def stage_noise_def
          firfilt_push_def firfilt_execute_def nco_mix_up_def randnf_operands_def randnf_def
          Let_def)
  have second: "execute
         (demo_engine\<lparr>nco := \<lparr>nco_type = LIQUID_VCO, theta = pi, d_theta = pi\<rparr>,
                      channel_filter := Some \<lparr>fir_h = [1, 2], fir_w = [1, 0]\<rparr>\<rparr>)
         (demo_env\<lparr>randn_pos := 2\<rparr>) [\<i>] 1 [0, 7]
       = Returned
           (demo_engine\<lparr>nco := \<lparr>nco_type = LIQUID_VCO, theta = 2 * pi, d_theta = pi\<rparr>,
                        channel_filter := Some \<lparr>fir_h = [1, 2], fir_w = [\<i>, 1]\<rparr>\<rparr>,
            demo_env\<lparr>randn_pos := 4\<rparr>,
            [- (2 + \<i>) * 2 + (5 + \<i> * 4) * of_real (1 / sqrt 2), 7],
            1)"
    by (simp add: execute_samples filter_missing_def demo_engine_def demo_env_def
          process_sample_def stage_multipath_def stage_carrier_def stage_noise_def
          firfilt_push_def firfilt_execute_def nco_mix_up_def randnf_operands_def randnf_def
          Let_def)
  show ?thesis
    using execute_split [of 1 2 "[1, \<i>]" "[0, 0, 7]" demo_engine demo_env] first second
    by simp
qed

subsection \<open>No call clears a flag\<close>

text \<open>
  Claim C9. Over any sequence of calls of \<open>add_awgn\<close>, \<open>add_carrier_offset\<close>,
  \<open>add_multipath\<close> and \<open>execute\<close>, in any order and with any arguments, a stage flag
  that is set at the start is still set at the end, whether the sequence runs to its
  end or stops at the exit of an over-length \<open>add_multipath\<close>.
\<close>

theorem enabled_flags_never_cleared:
  assumes "perform_all ps q e = Returned (q1, e1) \<or> perform_all ps q e = Exited c (q1, e1)"
  shows "(enabled_awgn q \<noteq> 0 \<longrightarrow> enabled_awgn q1 \<noteq> 0)
         \<and> (enabled_carrier q \<noteq> 0 \<longrightarrow> enabled_carrier q1 \<noteq> 0)
         \<and> (enabled_multipath q \<noteq> 0 \<longrightarrow> enabled_multipath q1 \<noteq> 0)"
  using assms
proof (induction ps arbitrary: q e)
  case Nil
  then show ?case by simp
next
  case (Cons p ps)
  show ?case
  proof (cases "perform p q e")
    case (Returned s)
    obtain qa ea where s: "s = (qa, ea)" by (cases s) auto
    have step: "(enabled_awgn q \<noteq> 0 \<longrightarrow> enabled_awgn qa \<noteq> 0)
         \<and> (enabled_carrier q \<noteq> 0 \<longrightarrow> enabled_carrier qa \<noteq> 0)
         \<and> (enabled_multipath q \<noteq> 0 \<longrightarrow> enabled_multipath qa \<noteq> 0)"
      using perform_flags [of p q e qa ea c] Returned s by simp
    have "perform_all ps qa ea = Returned (q1, e1) \<or> perform_all ps qa ea = Exited c (q1, e1)"
      using Cons.prems Returned s by simp
    from Cons.IH [OF this] step show ?thesis by simp
  next
    case (Exited c' s)
    then have "perform p q e = Exited c (q1, e1)"
      using Cons.prems by simp
    then show ?thesis using perform_flags [of p q e q1 e1 c] by simp
  next
    case Undefined
    then show ?thesis using Cons.prems by simp
  qed
qed

theorem enabled_flags_never_cleared_witness:
  "\<exists>q1 e1.
     perform_all
       [Add_carrier_offset 1 0, Add_multipath (Some [1, 2]) 2, Execute [1, \<i>] 2 [0, 0],
        Print, Add_multipath None 0, Add_awgn 3 4, Add_multipath None 3]
       (add_awgn (create demo_raw None 0) 0 20) demo_env = Returned (q1, e1)
     \<and> enabled_awgn (add_awgn (create demo_raw None 0) 0 20) \<noteq> 0
     \<and> enabled_awgn q1 \<noteq> 0"
proof -
  obtain q1 e1 where run: "perform_all
       [Add_carrier_offset 1 0, Add_multipath (Some [1, 2]) 2, Execute [1, \<i>] 2 [0, 0],
        Print, Add_multipath None 0, Add_awgn 3 4, Add_multipath None 3]
       (add_awgn (create demo_raw None 0) 0 20) demo_env = Returned (q1, e1)"
    by (simp add: add_awgn_def add_carrier_offset_def add_multipath_def create_def
          demo_raw_def demo_env_def Let_def execute_samples filter_missing_def
          process_sample_def stage_multipath_def stage_carrier_def stage_noise_def
          nco_set_frequency_def nco_set_phase_def nco_create_def fprintf_stderr_def
          realloc_def add_multipath_loop.simps randnf_operands_def randnf_def print_def
          printf_def
          split: prod.splits)
  have set: "enabled_awgn (add_awgn (create demo_raw None 0) 0 20) \<noteq> 0"
    by (simp add: add_awgn_def)
  show ?thesis
    using enabled_flags_never_cleared [of _ _ demo_env q1 e1 1] run set by blast
qed

end
